theory Spec2Isabelle
  imports Main
begin

section \<open>Values, calls and exceptions\<close>

text \<open>
  The module \<^verbatim>\<open>cfun.py\<close> chains callables with the operators \<^verbatim>\<open><<\<close>, \<^verbatim>\<open>>>\<close> and
  \<^verbatim>\<open>|\<close>. A call passes positional and keyword arguments (\<^verbatim>\<open>*args, **kwargs\<close>) and either
  returns a value or raises an exception. The values that flow through a chain are kept
  abstract (the type variable \<open>'a\<close>), and a function of the host program is a function
  from its arguments to its result or exception: it returns the same on the same
  arguments.

  An exception is its class and its message. \<open>TypeError\<close> is the class the interpreter
  and \<^verbatim>\<open>partial\<close> raise here (their messages are kept without the names of the operand
  types); \<open>Raised c m\<close> is an exception of any other class \<open>c\<close>.
\<close>

datatype exn =
    TypeError string
  | Raised string string

type_synonym 'a args = "'a list \<times> (string \<times> 'a) list"

type_synonym 'a result = "exn + 'a"

text \<open>
  The two subclasses of \<^verbatim>\<open>functools.partial\<close> that the module declares.
\<close>

datatype flow = LeftFlowing | RightFlowing

text \<open>
  The objects that can stand as an operand of one of the three operators:
  \<^item> \<open>Data v\<close>: a value that is not callable and whose reflected operators, if its class
    has any, return \<^verbatim>\<open>NotImplemented\<close> for an operand of this module (numbers, strings,
    containers);
  \<^item> \<open>Function f\<close>: an ordinary callable (a \<^verbatim>\<open>def\<close>, a \<^verbatim>\<open>lambda\<close>, a builtin), which
    defines no operator at all;
  \<^item> \<open>Compositor\<close>: the instance of \<^verbatim>\<open>_Compositor\<close>;
  \<^item> \<open>Partial c func\<close>: an instance of the subclass \<open>c\<close> of \<^verbatim>\<open>partial\<close>, created as
    \<^verbatim>\<open>c(func)\<close>, so with no bound positional or keyword argument.

  An operand whose class defines reflected operators of its own (\<^verbatim>\<open>__rrshift__\<close>,
  \<^verbatim>\<open>__rlshift__\<close>, \<^verbatim>\<open>__ror__\<close>) that accept a chain is not an object of this type.
\<close>

datatype 'a obj =
    Data 'a
  | Function "'a args \<Rightarrow> 'a result"
  | Compositor
  | Partial flow "'a obj"

text \<open>\<^verbatim>\<open>callable(o)\<close>: the class of \<open>o\<close> has a \<^verbatim>\<open>__call__\<close>.\<close>

primrec callable :: "'a obj \<Rightarrow> bool" where
  "callable (Data v) = False"
| "callable (Function f) = True"
| "callable Compositor = False"
| "callable (Partial c func) = True"

text \<open>
  The call \<^verbatim>\<open>o(*args, **kwargs)\<close>. An object without \<^verbatim>\<open>__call__\<close> raises \<^verbatim>\<open>TypeError\<close>;
  \<^verbatim>\<open>partial.__call__\<close> forwards the arguments to the wrapped \<^verbatim>\<open>func\<close> (nothing is bound
  in front of them) and returns or raises what it does. (Where an implementation of
  \<^verbatim>\<open>partial\<close> unwraps a \<^verbatim>\<open>func\<close> that is itself a \<^verbatim>\<open>partial\<close>, the call is the same.)

  This is the call while the interpreter's recursion limit is not reached: \<open>call\<close>
  does not count the nested calls. The call with a bounded number of nested calls is
  \<open>store_call_within\<close> below, and the statements about chains of any length are made
  there.
\<close>

primrec call :: "'a obj \<Rightarrow> 'a args \<Rightarrow> 'a result" where
  "call (Data v) args = Inl (TypeError ''object is not callable'')"
| "call (Function f) args = f args"
| "call Compositor args = Inl (TypeError ''object is not callable'')"
| "call (Partial c func) args = call func args"

text \<open>
  \<^verbatim>\<open>partial.__new__(cls, func)\<close>: rejects a \<^verbatim>\<open>func\<close> that is not callable.
\<close>

definition partial_new :: "flow \<Rightarrow> 'a obj \<Rightarrow> exn + 'a obj" where
  "partial_new c func =
     (if callable func then Inr (Partial c func)
      else Inl (TypeError ''the first argument must be callable''))"

section \<open>The classes of the module\<close>

text \<open>
  \<^verbatim>\<open>_LeftFlowing.__lshift__\<close>: the closure \<^verbatim>\<open>f\<close> evaluates \<^verbatim>\<open>other(*args, **kwargs)\<close>
  first and passes its result, as the only positional argument, to \<^verbatim>\<open>self\<close>.
\<close>

definition LeftFlowing_lshift :: "'a obj \<Rightarrow> 'a obj \<Rightarrow> exn + 'a obj" where
  "LeftFlowing_lshift self other =
     partial_new LeftFlowing
       (Function (\<lambda>args. case call other args of
                             Inl e \<Rightarrow> Inl e
                           | Inr r \<Rightarrow> call self ([r], [])))"

text \<open>
  \<^verbatim>\<open>_RightFlowing.__rshift__\<close>: the closure \<^verbatim>\<open>f\<close> evaluates \<^verbatim>\<open>self(*args, **kwargs)\<close>
  first and passes its result, as the only positional argument, to \<^verbatim>\<open>other\<close>.
\<close>

definition RightFlowing_rshift :: "'a obj \<Rightarrow> 'a obj \<Rightarrow> exn + 'a obj" where
  "RightFlowing_rshift self other =
     partial_new RightFlowing
       (Function (\<lambda>args. case call self args of
                             Inl e \<Rightarrow> Inl e
                           | Inr r \<Rightarrow> call other ([r], [])))"

text \<open>\<^verbatim>\<open>_Compositor.__lshift__\<close> and \<^verbatim>\<open>_Compositor.__rshift__\<close>.\<close>

definition Compositor_lshift :: "'a obj \<Rightarrow> 'a obj \<Rightarrow> exn + 'a obj" where
  "Compositor_lshift self func = partial_new LeftFlowing func"

definition Compositor_rshift :: "'a obj \<Rightarrow> 'a obj \<Rightarrow> exn + 'a obj" where
  "Compositor_rshift self func = partial_new RightFlowing func"

definition cfun :: "'a obj" where
  "cfun = Compositor"

section \<open>Operator dispatch\<close>

datatype binop = LShift | RShift | Or

text \<open>
  The special method a class defines for an operator: the method tables of the three
  classes, with \<^verbatim>\<open>__or__ = __rshift__\<close> in \<^verbatim>\<open>_RightFlowing\<close> and \<^verbatim>\<open>_Compositor\<close>.
  \<^verbatim>\<open>partial\<close> itself defines none of the three, and neither does an ordinary function.
\<close>

fun special_method :: "'a obj \<Rightarrow> binop \<Rightarrow> ('a obj \<Rightarrow> 'a obj \<Rightarrow> exn + 'a obj) option" where
  "special_method (Partial LeftFlowing func) LShift = Some LeftFlowing_lshift"
| "special_method (Partial RightFlowing func) RShift = Some RightFlowing_rshift"
| "special_method (Partial RightFlowing func) Or = Some RightFlowing_rshift"
| "special_method Compositor LShift = Some Compositor_lshift"
| "special_method Compositor RShift = Some Compositor_rshift"
| "special_method Compositor Or = Some Compositor_rshift"
| "special_method _ _ = None"

primrec op_symbol :: "binop \<Rightarrow> string" where
  "op_symbol LShift = ''<<''"
| "op_symbol RShift = ''>>''"
| "op_symbol Or = ''|''"

text \<open>
  The evaluation of \<^verbatim>\<open>a op b\<close>. When the class of the left operand has the method, the
  expression is its call: none of the methods above returns \<^verbatim>\<open>NotImplemented\<close>, so the
  right operand is not consulted. When it has none, the interpreter turns to the
  reflected method of the right operand; no object of the model has one that accepts
  the left operand, so the expression raises \<^verbatim>\<open>TypeError\<close>.
\<close>

definition binary_op :: "binop \<Rightarrow> 'a obj \<Rightarrow> 'a obj \<Rightarrow> exn + 'a obj" where
  "binary_op op a b =
     (case special_method a op of
        Some m \<Rightarrow> m a b
      | None \<Rightarrow> Inl (TypeError (''unsupported operand type(s) for '' @ op_symbol op)))"

text \<open>
  The expression \<^verbatim>\<open>a op b1 op b2 ... op bn\<close>, evaluated from the left; an exception of
  one step ends the evaluation.
\<close>

fun chain :: "binop \<Rightarrow> 'a obj \<Rightarrow> 'a obj list \<Rightarrow> exn + 'a obj" where
  "chain op a [] = Inr a"
| "chain op a (b # bs) =
     (case binary_op op a b of
        Inl e \<Rightarrow> Inl e
      | Inr g \<Rightarrow> chain op g bs)"

text \<open>
  The expression \<^verbatim>\<open>(e)(*args, **kwargs)\<close>: when evaluating \<open>e\<close> raises, nothing is
  called.
\<close>

definition call_result :: "exn + 'a obj \<Rightarrow> 'a args \<Rightarrow> 'a result" where
  "call_result e args = (case e of Inl x \<Rightarrow> Inl x | Inr g \<Rightarrow> call g args)"

section \<open>Nested calls written by hand\<close>




text \<open>
  A function of one parameter named \<open>p\<close> (\<^verbatim>\<open>lambda p: body\<close>): the argument is bound
  from one positional argument or from the keyword \<open>p\<close>; any other argument list raises
  \<^verbatim>\<open>TypeError\<close>.
\<close>

definition unary :: "string \<Rightarrow> ('a \<Rightarrow> 'a result) \<Rightarrow> 'a args \<Rightarrow> 'a result" where
  "unary p body args =
     (case args of
        ([v], []) \<Rightarrow> body v
      | ([], [(n, v)]) \<Rightarrow>
          if n = p then body v else Inl (TypeError ''unexpected keyword argument'')
      | _ \<Rightarrow> Inl (TypeError ''wrong number of arguments''))"

text \<open>The functions of the specification's example: \<^verbatim>\<open>double\<close> and \<^verbatim>\<open>increment\<close>.\<close>

definition double :: "int args \<Rightarrow> int result" where
  "double = unary ''v'' (\<lambda>v. Inr (v * 2))"

definition increment :: "int args \<Rightarrow> int result" where
  "increment = unary ''v'' (\<lambda>v. Inr (v + 1))"

text \<open>The identity \<^verbatim>\<open>lambda v: v\<close>.\<close>

definition identity :: "'a args \<Rightarrow> 'a result" where
  "identity = unary ''v'' Inr"

text \<open>
  The function \<^verbatim>\<open>lambda v: h(g(v))\<close>, composed by hand from two objects: \<^verbatim>\<open>g(v)\<close> is
  evaluated first, and \<^verbatim>\<open>h\<close> is called on its result.
\<close>

definition precomposed :: "'a obj \<Rightarrow> 'a obj \<Rightarrow> 'a obj" where
  "precomposed g h =
     Function (unary ''v'' (\<lambda>v. case call g ([v], []) of
                                    Inl e \<Rightarrow> Inl e
                                  | Inr r \<Rightarrow> call h ([r], [])))"


section \<open>Objects in a store\<close>

text \<open>
  Whether an operator alters an object that exists already is a question about objects
  with an identity. Here the objects live in a store: a reference is an index into the
  list of the objects created so far, a new object is appended, and an object holds
  references where the Python object holds one: the attribute \<^verbatim>\<open>func\<close> of a
  \<^verbatim>\<open>partial\<close>, and the free variables \<^verbatim>\<open>self\<close> and \<^verbatim>\<open>other\<close> of the closure \<^verbatim>\<open>f\<close> that
  \<^verbatim>\<open>__lshift__\<close> and \<^verbatim>\<open>__rshift__\<close> create.
\<close>

type_synonym ref = nat

datatype 'a cell =
    Data_cell 'a
  | Function_cell "'a args \<Rightarrow> 'a result"
  | Compositor_cell
  | Partial_cell flow ref
  | Closure_lshift ref ref
  | Closure_rshift ref ref

type_synonym 'a store = "'a cell list"

text \<open>
  An object refers only to objects that were created before it. A reference that breaks
  this (no operation of the module creates one) is answered with an error value, which
  makes the call a total function.
\<close>

definition no_such_object :: exn where
  "no_such_object = Raised ''SystemError'' ''no such object''"

function store_call :: "'a store \<Rightarrow> ref \<Rightarrow> 'a args \<Rightarrow> 'a result" where
  "store_call s r args =
     (if r < length s then
        (case s ! r of
           Data_cell v \<Rightarrow> Inl (TypeError ''object is not callable'')
         | Function_cell f \<Rightarrow> f args
         | Compositor_cell \<Rightarrow> Inl (TypeError ''object is not callable'')
         | Partial_cell c func \<Rightarrow>
             if func < r then store_call s func args else Inl no_such_object
         | Closure_lshift self other \<Rightarrow>
             if self < r \<and> other < r then
               (case store_call s other args of
                  Inl e \<Rightarrow> Inl e
                | Inr v \<Rightarrow> store_call s self ([v], []))
             else Inl no_such_object
         | Closure_rshift self other \<Rightarrow>
             if self < r \<and> other < r then
               (case store_call s self args of
                  Inl e \<Rightarrow> Inl e
                | Inr v \<Rightarrow> store_call s other ([v], []))
             else Inl no_such_object)
      else Inl no_such_object)"
  by pat_completeness auto
termination
  by (relation "measure (\<lambda>(s, r, args). r)") auto

declare store_call.simps [simp del]

definition store_callable :: "'a store \<Rightarrow> ref \<Rightarrow> bool" where
  "store_callable s r \<longleftrightarrow>
     r < length s \<and>
     (case s ! r of
        Data_cell v \<Rightarrow> False
      | Function_cell f \<Rightarrow> True
      | Compositor_cell \<Rightarrow> False
      | Partial_cell c func \<Rightarrow> True
      | Closure_lshift self other \<Rightarrow> True
      | Closure_rshift self other \<Rightarrow> True)"

text \<open>
  \<^verbatim>\<open>partial.__new__(cls, func)\<close> in the store: the new instance is appended, and its
  reference returned. Nothing is written to an object of the store.
\<close>

definition store_partial_new :: "flow \<Rightarrow> ref \<Rightarrow> 'a store \<Rightarrow> (exn + ref) \<times> 'a store" where
  "store_partial_new c func s =
     (if store_callable s func then (Inr (length s), s @ [Partial_cell c func])
      else (Inl (TypeError ''the first argument must be callable''), s))"

text \<open>
  \<^verbatim>\<open>_LeftFlowing.__lshift__\<close> and \<^verbatim>\<open>_RightFlowing.__rshift__\<close> in the store: the \<^verbatim>\<open>def f\<close>
  creates the closure, which holds \<^verbatim>\<open>self\<close> and \<^verbatim>\<open>other\<close>, and the constructor wraps it.
\<close>

definition store_LeftFlowing_lshift :: "ref \<Rightarrow> ref \<Rightarrow> 'a store \<Rightarrow> (exn + ref) \<times> 'a store" where
  "store_LeftFlowing_lshift self other s =
     store_partial_new LeftFlowing (length s) (s @ [Closure_lshift self other])"

definition store_RightFlowing_rshift :: "ref \<Rightarrow> ref \<Rightarrow> 'a store \<Rightarrow> (exn + ref) \<times> 'a store" where
  "store_RightFlowing_rshift self other s =
     store_partial_new RightFlowing (length s) (s @ [Closure_rshift self other])"

text \<open>
  The object of the first sections that a reference stands for: the closure becomes the
  function it computes.
\<close>

function reify :: "'a store \<Rightarrow> ref \<Rightarrow> 'a obj" where
  "reify s r =
     (if r < length s then
        (case s ! r of
           Data_cell v \<Rightarrow> Data v
         | Function_cell f \<Rightarrow> Function f
         | Compositor_cell \<Rightarrow> Compositor
         | Partial_cell c func \<Rightarrow>
             Partial c (if func < r then reify s func
                        else Function (\<lambda>args. Inl no_such_object))
         | Closure_lshift self other \<Rightarrow>
             if self < r \<and> other < r then
               Function (\<lambda>args. case call (reify s other) args of
                                     Inl e \<Rightarrow> Inl e
                                   | Inr v \<Rightarrow> call (reify s self) ([v], []))
             else Function (\<lambda>args. Inl no_such_object)
         | Closure_rshift self other \<Rightarrow>
             if self < r \<and> other < r then
               Function (\<lambda>args. case call (reify s self) args of
                                     Inl e \<Rightarrow> Inl e
                                   | Inr v \<Rightarrow> call (reify s other) ([v], []))
             else Function (\<lambda>args. Inl no_such_object))
      else Function (\<lambda>args. Inl no_such_object))"
  by pat_completeness auto
termination
  by (relation "measure (\<lambda>(s, r). r)") auto

declare reify.simps [simp del]

text \<open>
  A store after \<^verbatim>\<open>r = cfun >> double\<close> and \<^verbatim>\<open>l = cfun << double\<close>: the functions
  \<^verbatim>\<open>double\<close> and \<^verbatim>\<open>increment\<close> at 0 and 2, \<^verbatim>\<open>r\<close> at 1 and \<^verbatim>\<open>l\<close> at 3.
\<close>

definition example_store :: "int store" where
  "example_store =
     [Function_cell double, Partial_cell RightFlowing 0,
      Function_cell increment, Partial_cell LeftFlowing 0]"

section \<open>The recursion limit\<close>

text \<open>
  The interpreter bounds the depth of nested calls and raises \<^verbatim>\<open>RecursionError\<close>
  (\<^verbatim>\<open>RuntimeError\<close> in Python 2) where a call would exceed it. Calling a composed
  function nests calls: the call of the \<^verbatim>\<open>partial\<close> enters the closure \<^verbatim>\<open>f\<close>, whose
  body calls \<^verbatim>\<open>self\<close>, the link before, and so on down the chain.

  In \<open>store_call_within d\<close>, \<open>d\<close> is the number of nested calls the interpreter still
  allows where the call is made (its limit less the depth of the caller). Every call
  of a callable object takes one of them, the call of a \<^verbatim>\<open>partial\<close> as the call of a
  function; the objects a call reaches are called with \<open>d - 1\<close>. A function of the host
  program needs its own level and no more. An object that is not callable raises
  \<^verbatim>\<open>TypeError\<close> at any depth, since no call is entered.

  Interpreters differ in what they count for the call of a \<^verbatim>\<open>partial\<close>. Counted here
  are both calls of a link, as by the interpreters in which a chain of 500 links
  exceeds the default limit of 1000.
\<close>

definition recursion_error :: exn where
  "recursion_error = Raised ''RecursionError'' ''maximum recursion depth exceeded''"

fun store_call_within :: "nat \<Rightarrow> 'a store \<Rightarrow> ref \<Rightarrow> 'a args \<Rightarrow> 'a result" where
  "store_call_within 0 s r args =
     (if r < length s then
        (case s ! r of
           Data_cell v \<Rightarrow> Inl (TypeError ''object is not callable'')
         | Function_cell f \<Rightarrow> Inl recursion_error
         | Compositor_cell \<Rightarrow> Inl (TypeError ''object is not callable'')
         | Partial_cell c func \<Rightarrow> Inl recursion_error
         | Closure_lshift self other \<Rightarrow> Inl recursion_error
         | Closure_rshift self other \<Rightarrow> Inl recursion_error)
      else Inl no_such_object)"
| "store_call_within (Suc d) s r args =
     (if r < length s then
        (case s ! r of
           Data_cell v \<Rightarrow> Inl (TypeError ''object is not callable'')
         | Function_cell f \<Rightarrow> f args
         | Compositor_cell \<Rightarrow> Inl (TypeError ''object is not callable'')
         | Partial_cell c func \<Rightarrow>
             if func < r then store_call_within d s func args else Inl no_such_object
         | Closure_lshift self other \<Rightarrow>
             if self < r \<and> other < r then
               (case store_call_within d s other args of
                  Inl e \<Rightarrow> Inl e
                | Inr v \<Rightarrow> store_call_within d s self ([v], []))
             else Inl no_such_object
         | Closure_rshift self other \<Rightarrow>
             if self < r \<and> other < r then
               (case store_call_within d s self args of
                  Inl e \<Rightarrow> Inl e
                | Inr v \<Rightarrow> store_call_within d s other ([v], []))
             else Inl no_such_object)
      else Inl no_such_object)"

text \<open>
  A call that returns within \<open>d\<close> levels returns the same without the bound (lemma
  \<open>store_call_within_value\<close> below).
\<close>

section \<open>The operators in the store\<close>

text \<open>
  \<^verbatim>\<open>_Compositor.__lshift__\<close> and \<^verbatim>\<open>_Compositor.__rshift__\<close>, the method tables and the
  evaluation of \<^verbatim>\<open>a op b\<close> and of \<^verbatim>\<open>a op b1 op ... op bn\<close>, as in the first sections,
  on references: an operator returns the reference of its result, or the exception,
  and the store after it.
\<close>

definition store_Compositor_lshift :: "ref \<Rightarrow> ref \<Rightarrow> 'a store \<Rightarrow> (exn + ref) \<times> 'a store" where
  "store_Compositor_lshift self func s = store_partial_new LeftFlowing func s"

definition store_Compositor_rshift :: "ref \<Rightarrow> ref \<Rightarrow> 'a store \<Rightarrow> (exn + ref) \<times> 'a store" where
  "store_Compositor_rshift self func s = store_partial_new RightFlowing func s"

fun store_special_method ::
  "'a cell \<Rightarrow> binop \<Rightarrow> (ref \<Rightarrow> ref \<Rightarrow> 'a store \<Rightarrow> (exn + ref) \<times> 'a store) option" where
  "store_special_method (Partial_cell LeftFlowing func) LShift = Some store_LeftFlowing_lshift"
| "store_special_method (Partial_cell RightFlowing func) RShift = Some store_RightFlowing_rshift"
| "store_special_method (Partial_cell RightFlowing func) Or = Some store_RightFlowing_rshift"
| "store_special_method Compositor_cell LShift = Some store_Compositor_lshift"
| "store_special_method Compositor_cell RShift = Some store_Compositor_rshift"
| "store_special_method Compositor_cell Or = Some store_Compositor_rshift"
| "store_special_method _ _ = None"

definition store_binary_op :: "binop \<Rightarrow> ref \<Rightarrow> ref \<Rightarrow> 'a store \<Rightarrow> (exn + ref) \<times> 'a store" where
  "store_binary_op op a b s =
     (if a < length s then
        (case store_special_method (s ! a) op of
           Some m \<Rightarrow> m a b s
         | None \<Rightarrow> (Inl (TypeError (''unsupported operand type(s) for '' @ op_symbol op)), s))
      else (Inl no_such_object, s))"






section \<open>Helper lemmas\<close>

lemma binary_op_Compositor_Function:
  "binary_op RShift Compositor (Function f) = Inr (Partial RightFlowing (Function f))"
  "binary_op Or Compositor (Function f) = Inr (Partial RightFlowing (Function f))"
  "binary_op LShift Compositor (Function f) = Inr (Partial LeftFlowing (Function f))"
  by (simp_all add: binary_op_def Compositor_rshift_def Compositor_lshift_def partial_new_def)

lemma binary_op_RightFlowing:
  "binary_op RShift (Partial RightFlowing g) b =
     Inr (Partial RightFlowing
       (Function (\<lambda>args. case call (Partial RightFlowing g) args of
                             Inl e \<Rightarrow> Inl e
                           | Inr r \<Rightarrow> call b ([r], []))))"
  by (simp add: binary_op_def RightFlowing_rshift_def partial_new_def)

lemma binary_op_LeftFlowing:
  "binary_op LShift (Partial LeftFlowing g) b =
     Inr (Partial LeftFlowing
       (Function (\<lambda>args. case call b args of
                             Inl e \<Rightarrow> Inl e
                           | Inr r \<Rightarrow> call (Partial LeftFlowing g) ([r], []))))"
  by (simp add: binary_op_def LeftFlowing_lshift_def partial_new_def)

section \<open>Operators a chain does not have\<close>

text \<open>
  Claim C4. A leftward composed function has no method for \<^verbatim>\<open>>>\<close> and none for \<^verbatim>\<open>|\<close>,
  and a rightward one has none for \<^verbatim>\<open><<\<close>: with any right operand of the model (none
  has a reflected operator that accepts a chain) the expression raises the
  interpreter's \<^verbatim>\<open>TypeError\<close> for unsupported operand types.
\<close>

theorem cross_direction_unsupported:
  "special_method (Partial LeftFlowing g) RShift = None
   \<and> special_method (Partial LeftFlowing g) Or = None
   \<and> special_method (Partial RightFlowing h) LShift = None
   \<and> binary_op RShift (Partial LeftFlowing g) f
       = Inl (TypeError ''unsupported operand type(s) for >>'')
   \<and> binary_op Or (Partial LeftFlowing g) f
       = Inl (TypeError ''unsupported operand type(s) for |'')
   \<and> binary_op LShift (Partial RightFlowing h) f
       = Inl (TypeError ''unsupported operand type(s) for <<'')"
  by (simp add: binary_op_def)

theorem cross_direction_unsupported_witness:
  "\<exists>g h. chain LShift cfun [Function double] = Inr g
     \<and> chain RShift cfun [Function double] = Inr h
     \<and> binary_op RShift g (Function increment)
         = Inl (TypeError ''unsupported operand type(s) for >>'')
     \<and> binary_op Or g (Function increment)
         = Inl (TypeError ''unsupported operand type(s) for |'')
     \<and> binary_op LShift h (Function increment)
         = Inl (TypeError ''unsupported operand type(s) for <<'')"
  using cross_direction_unsupported
          [of "Function double" "Function double" "Function increment"]
  by (simp add: cfun_def binary_op_Compositor_Function)

section \<open>The pipe\<close>

lemma binary_op_Or:
  "binary_op Or Compositor b = binary_op RShift Compositor b"
  "binary_op Or (Partial RightFlowing g) b = binary_op RShift (Partial RightFlowing g) b"
  by (simp_all add: binary_op_def)

lemma binary_op_RightFlowing_ex:
  "\<exists>h. binary_op RShift (Partial RightFlowing g) b = Inr (Partial RightFlowing h)"
  by (simp add: binary_op_RightFlowing)

lemma chain_Or_RightFlowing:
  "chain Or (Partial RightFlowing g) bs = chain RShift (Partial RightFlowing g) bs"
proof (induction bs arbitrary: g)
  case Nil
  show ?case by simp
next
  case (Cons b bs)
  obtain h where "binary_op RShift (Partial RightFlowing g) b = Inr (Partial RightFlowing h)"
    using binary_op_RightFlowing_ex by blast
  then show ?case
    by (simp add: binary_op_Or Cons.IH)
qed

lemma chain_Or_Compositor:
  "bs \<noteq> [] \<Longrightarrow> chain Or Compositor bs = chain RShift Compositor bs"
proof (cases bs)
  case Nil
  assume "bs \<noteq> []"
  with Nil show ?thesis by simp
next
  case (Cons b bs')
  show ?thesis
  proof (cases "callable b")
    case True
    then show ?thesis
      using Cons
      by (simp add: binary_op_def Compositor_rshift_def partial_new_def chain_Or_RightFlowing)
  next
    case False
    then show ?thesis
      using Cons by (simp add: binary_op_def Compositor_rshift_def partial_new_def)
  qed
qed

text \<open>
  Claim C5. \<^verbatim>\<open>|\<close> is \<^verbatim>\<open>>>\<close> under another name, on the compositor as on a rightward
  composed function: both operators look up the same method, a chain written with \<^verbatim>\<open>|\<close>
  evaluates to what the chain written with \<^verbatim>\<open>>>\<close> evaluates to, and
  \<^verbatim>\<open>(cfun | f1 | f2)(*args, **kwargs)\<close> returns or raises what
  \<^verbatim>\<open>(cfun >> f1 >> f2)(*args, **kwargs)\<close> does.
\<close>

theorem pipe_alias:
  fixes g f1 f2 :: "'a obj"
  shows
  "special_method (cfun :: 'a obj) Or = special_method cfun RShift
   \<and> special_method (Partial RightFlowing g) Or = special_method (Partial RightFlowing g) RShift
   \<and> binary_op Or cfun f1 = binary_op RShift cfun f1
   \<and> binary_op Or (Partial RightFlowing g) f1 = binary_op RShift (Partial RightFlowing g) f1
   \<and> chain Or cfun (f1 # fs) = chain RShift cfun (f1 # fs)
   \<and> call_result (chain Or cfun [f1, f2]) args = call_result (chain RShift cfun [f1, f2]) args"
proof -
  have c: "chain Or cfun (b # bs) = chain RShift cfun (b # bs)" for b :: "'a obj" and bs
    using chain_Or_Compositor [of "b # bs"] by (simp add: cfun_def)
  have m: "special_method cfun Or = special_method (cfun :: 'a obj) RShift"
    by (simp add: cfun_def)
  have n: "special_method (Partial RightFlowing g) Or
             = special_method (Partial RightFlowing g) RShift"
    by simp
  have b: "binary_op Or cfun f1 = binary_op RShift cfun f1"
    by (simp add: cfun_def binary_op_Or)
  have r: "binary_op Or (Partial RightFlowing g) f1
             = binary_op RShift (Partial RightFlowing g) f1"
    by (simp add: binary_op_Or)
  have "call_result (chain Or cfun [f1, f2]) args
          = call_result (chain RShift cfun [f1, f2]) args"
    by (subst c) (rule refl)
  with c [of f1 fs] m n b r show ?thesis
    by blast
qed

theorem pipe_alias_witness:
  "call_result (chain Or cfun [Function double, Function increment]) ([3], []) = Inr 7
   \<and> call_result (chain RShift cfun [Function double, Function increment]) ([3], []) = Inr 7"
proof -
  have r: "call_result (chain RShift cfun [Function double, Function increment]) ([3], [])
             = Inr 7"
    by (simp add: call_result_def cfun_def binary_op_Compositor_Function binary_op_RightFlowing
          double_def increment_def unary_def)
  have "call_result (chain Or cfun [Function double, Function increment]) ([3], [])
          = call_result (chain RShift cfun [Function double, Function increment]) ([3], [])"
    using pipe_alias [where ?f1.0 = "Function double" and ?f2.0 = "Function increment"
                        and args = "([3], [])" and g = "Function double" and fs = "[]"]
    by blast
  with r show ?thesis
    by (simp del: chain.simps)
qed

section \<open>Algebraic laws\<close>

lemma binary_op_Compositor_RShift:
  "binary_op RShift Compositor b =
     (if callable b then Inr (Partial RightFlowing b)
      else Inl (TypeError ''the first argument must be callable''))"
  by (simp add: binary_op_def Compositor_rshift_def partial_new_def)

lemma call_precomposed:
  "call (precomposed g h) ([r], []) =
     (case call g ([r], []) of Inl e \<Rightarrow> Inl e | Inr r' \<Rightarrow> call h ([r'], []))"
  by (simp add: precomposed_def unary_def)

text \<open>
  Claim C7. For all \<open>f\<close>, \<open>g\<close>, \<open>h\<close> and all arguments,
  \<^verbatim>\<open>(((cfun >> f) >> g) >> h)(*args, **kwargs)\<close> returns or raises what
  \<^verbatim>\<open>((cfun >> f) >> k)(*args, **kwargs)\<close> does, where \<^verbatim>\<open>k = lambda v: h(g(v))\<close>; and when
  \<open>f\<close> is a function, both chains are built.
\<close>

theorem rightward_associative:
  "call_result (chain RShift cfun [f, g, h]) args
     = call_result (chain RShift cfun [f, precomposed g h]) args
   \<and> (\<exists>c. chain RShift cfun [Function ff, g, h] = Inr c)
   \<and> (\<exists>c. chain RShift cfun [Function ff, precomposed g h] = Inr c)"
proof -
  have eq: "call_result (chain RShift cfun [f, g, h]) args
              = call_result (chain RShift cfun [f, precomposed g h]) args"
  proof (cases "callable f")
    case True
    then show ?thesis
      by (simp add: cfun_def call_result_def binary_op_Compositor_RShift
            binary_op_RightFlowing call_precomposed split: sum.splits)
  next
    case False
    then show ?thesis
      by (simp add: cfun_def call_result_def binary_op_Compositor_RShift)
  qed
  have l: "\<exists>c. chain RShift cfun [Function ff, g, h] = Inr c"
    by (simp add: cfun_def binary_op_Compositor_RShift binary_op_RightFlowing)
  have r: "\<exists>c. chain RShift cfun [Function ff, precomposed g h] = Inr c"
    by (simp add: cfun_def binary_op_Compositor_RShift binary_op_RightFlowing)
  from eq l r show ?thesis by blast
qed

theorem rightward_associative_witness:
  "call_result (chain RShift cfun [Function double, Function increment, Function double])
       ([3], []) = Inr 14
   \<and> call_result (chain RShift cfun
         [Function double, precomposed (Function increment) (Function double)])
       ([3], []) = Inr 14"
proof -
  have "call_result (chain RShift cfun [Function double, Function increment, Function double])
          ([3], []) = Inr 14"
    by (simp add: call_result_def cfun_def binary_op_Compositor_RShift binary_op_RightFlowing
          double_def increment_def unary_def)
  moreover have
    "call_result (chain RShift cfun [Function double, Function increment, Function double])
        ([3], [])
       = call_result (chain RShift cfun
           [Function double, precomposed (Function increment) (Function double)]) ([3], [])"
    using rightward_associative [where f = "Function double" and g = "Function increment"
        and h = "Function double" and args = "([3], [])" and ff = double]
    by blast
  ultimately show ?thesis
    by (simp del: chain.simps)
qed

text \<open>
  Claim C8. \<^verbatim>\<open>cfun >> (lambda v: v)\<close> is built, and called with one argument \<open>x\<close> it
  returns \<open>x\<close>.
\<close>

theorem identity_law:
  "\<exists>g. chain RShift cfun [Function identity] = Inr g \<and> call g ([x], []) = Inr x"
  by (simp add: cfun_def binary_op_Compositor_RShift identity_def unary_def)

theorem identity_law_witness:
  "\<exists>g. chain RShift cfun [Function identity] = Inr g \<and> call g ([3 :: int], []) = Inr 3"
  using identity_law [of "3 :: int"] .

section \<open>Operands that are not callable\<close>

lemma call_not_callable:
  "\<not> callable x \<Longrightarrow> call x args = Inl (TypeError ''object is not callable'')"
  by (cases x) simp_all

text \<open>
  Claim C9. For an operand \<open>x\<close> that is not callable: the first combine
  (\<^verbatim>\<open>cfun >> x\<close>, \<^verbatim>\<open>cfun | x\<close>, \<^verbatim>\<open>cfun << x\<close>) raises the \<^verbatim>\<open>TypeError\<close> of the constructor
  of \<^verbatim>\<open>partial\<close>; extending a composed function (\<^verbatim>\<open>g >> x\<close>, \<^verbatim>\<open>g | x\<close>, \<^verbatim>\<open>g << x\<close>)
  raises nothing and returns a composed function of the same direction, a callable
  object, and the \<^verbatim>\<open>TypeError\<close> of calling \<open>x\<close> is raised when that result is called:
  by every call of the leftward chain, where \<open>x\<close> is called first, and by every call of
  the rightward chain on which \<open>g\<close> returns (an exception of \<open>g\<close> comes first).
\<close>

theorem noncallable_operand_timing:
  assumes "\<not> callable x"
  shows
  "binary_op RShift cfun x = Inl (TypeError ''the first argument must be callable'')
   \<and> binary_op Or cfun x = Inl (TypeError ''the first argument must be callable'')
   \<and> binary_op LShift cfun x = Inl (TypeError ''the first argument must be callable'')
   \<and> (\<exists>c func. binary_op RShift (Partial RightFlowing g) x = Inr c
         \<and> binary_op Or (Partial RightFlowing g) x = Inr c
         \<and> c = Partial RightFlowing func \<and> callable c
         \<and> (\<forall>args. call c args =
               (case call g args of
                  Inl e \<Rightarrow> Inl e
                | Inr r \<Rightarrow> Inl (TypeError ''object is not callable''))))
   \<and> (\<exists>c func. binary_op LShift (Partial LeftFlowing g) x = Inr c
         \<and> c = Partial LeftFlowing func \<and> callable c
         \<and> (\<forall>args. call c args = Inl (TypeError ''object is not callable'')))"
proof -
  have first:
    "binary_op RShift cfun x = Inl (TypeError ''the first argument must be callable'')"
    "binary_op Or cfun x = Inl (TypeError ''the first argument must be callable'')"
    "binary_op LShift cfun x = Inl (TypeError ''the first argument must be callable'')"
    using assms
    by (simp_all add: cfun_def binary_op_def Compositor_rshift_def Compositor_lshift_def
          partial_new_def)
  have right:
    "\<exists>c func. binary_op RShift (Partial RightFlowing g) x = Inr c
         \<and> binary_op Or (Partial RightFlowing g) x = Inr c
         \<and> c = Partial RightFlowing func \<and> callable c
         \<and> (\<forall>args. call c args =
               (case call g args of
                  Inl e \<Rightarrow> Inl e
                | Inr r \<Rightarrow> Inl (TypeError ''object is not callable'')))"
    using assms
    by (simp add: binary_op_Or binary_op_RightFlowing call_not_callable split: sum.splits)
  have left:
    "\<exists>c func. binary_op LShift (Partial LeftFlowing g) x = Inr c
         \<and> c = Partial LeftFlowing func \<and> callable c
         \<and> (\<forall>args. call c args = Inl (TypeError ''object is not callable''))"
    using assms
    by (simp add: binary_op_LeftFlowing call_not_callable)
  from first right left show ?thesis by blast
qed


text \<open>
  The operand 5: \<^verbatim>\<open>cfun >> 5\<close> raises, while \<^verbatim>\<open>(cfun >> double) >> 5\<close> and
  \<^verbatim>\<open>(cfun << double) << 5\<close> are built, are callable, and raise when called with 3.
\<close>

theorem noncallable_operand_timing_witness:
  "\<not> callable (Data (5 :: int))
   \<and> binary_op RShift cfun (Data (5 :: int))
       = Inl (TypeError ''the first argument must be callable'')
   \<and> (\<exists>c. binary_op RShift (Partial RightFlowing (Function double)) (Data 5) = Inr c
         \<and> callable c
         \<and> call c ([3], []) = Inl (TypeError ''object is not callable''))
   \<and> (\<exists>c. binary_op LShift (Partial LeftFlowing (Function double)) (Data 5) = Inr c
         \<and> callable c
         \<and> call c ([3], []) = Inl (TypeError ''object is not callable''))"
proof -
  have n: "\<not> callable (Data (5 :: int))"
    by simp
  have d: "call (Function double) ([3], []) = Inr 6"
    by (simp add: double_def unary_def)
  from noncallable_operand_timing [OF n, of "Function double"] obtain c c' where
    "binary_op RShift cfun (Data (5 :: int))
       = Inl (TypeError ''the first argument must be callable'')"
    "binary_op RShift (Partial RightFlowing (Function double)) (Data 5) = Inr c"
    "callable c"
    "\<forall>args. call c args =
       (case call (Function double) args of
          Inl e \<Rightarrow> Inl e
        | Inr r \<Rightarrow> Inl (TypeError ''object is not callable''))"
    "binary_op LShift (Partial LeftFlowing (Function double)) (Data 5) = Inr c'"
    "callable c'"
    "\<forall>args. call c' args = Inl (TypeError ''object is not callable'')"
    by blast
  with n d show ?thesis
    by (simp del: call.simps)
qed

text \<open>
  Claim C10. \<^verbatim>\<open>cfun\<close> is not callable: \<^verbatim>\<open>_Compositor\<close> has no \<^verbatim>\<open>__call__\<close>, and calling
  \<^verbatim>\<open>cfun\<close> with any arguments raises \<^verbatim>\<open>TypeError\<close>. What an operator of the module
  returns is callable.
\<close>

theorem compositor_not_callable:
  "call cfun args = Inl (TypeError ''object is not callable'')
   \<and> \<not> callable cfun
   \<and> (binary_op op a b = Inr c \<longrightarrow> callable c)"
proof -
  have "callable c" if "binary_op op a b = Inr c"
  proof (cases "special_method a op")
    case None
    with that show ?thesis
      by (simp add: binary_op_def)
  next
    case (Some m)
    then have "m = LeftFlowing_lshift \<or> m = RightFlowing_rshift
               \<or> m = Compositor_lshift \<or> m = Compositor_rshift"
      by (cases "(a, op)" rule: special_method.cases) auto
    with that Some show ?thesis
      by (auto simp: binary_op_def LeftFlowing_lshift_def RightFlowing_rshift_def
            Compositor_lshift_def Compositor_rshift_def partial_new_def split: if_splits)
  qed
  then show ?thesis
    by (simp add: cfun_def)
qed

theorem compositor_not_callable_witness:
  "call cfun ([3 :: int], []) = Inl (TypeError ''object is not callable'')
   \<and> binary_op RShift cfun (Function double) = Inr (Partial RightFlowing (Function double))
   \<and> callable (Partial RightFlowing (Function double))"
proof -
  have b: "binary_op RShift cfun (Function double) = Inr (Partial RightFlowing (Function double))"
    by (simp add: cfun_def binary_op_Compositor_RShift)
  from compositor_not_callable [of "([3 :: int], [])" RShift cfun "Function double"
      "Partial RightFlowing (Function double)"] b
  show ?thesis by blast
qed

section \<open>Immutability\<close>

lemma store_call_append:
  "r < length s \<Longrightarrow> store_call (s @ t) r args = store_call s r args"
proof (induction r arbitrary: args rule: less_induct)
  case (less r)
  have IH: "store_call (s @ t) y a = store_call s y a" if "y < r" for y a
    using less.IH [OF that] that less.prems by simp
  show ?case
    apply (subst store_call.simps [of "s @ t" r args])
    apply (subst store_call.simps [of s r args])
    using less.prems
    apply (simp add: nth_append IH split: cell.splits sum.splits)
    done
qed

lemma store_RightFlowing_rshift_eq:
  "store_RightFlowing_rshift self other s =
     (Inr (Suc (length s)),
      s @ [Closure_rshift self other, Partial_cell RightFlowing (length s)])"
  by (simp add: store_RightFlowing_rshift_def store_partial_new_def store_callable_def)

lemma store_LeftFlowing_lshift_eq:
  "store_LeftFlowing_lshift self other s =
     (Inr (Suc (length s)),
      s @ [Closure_lshift self other, Partial_cell LeftFlowing (length s)])"
  by (simp add: store_LeftFlowing_lshift_def store_partial_new_def store_callable_def)

lemma store_call_new_rshift:
  assumes "self < length s" "other < length s"
  shows "store_call (s @ [Closure_rshift self other, Partial_cell RightFlowing (length s)])
           (Suc (length s)) args =
         (case store_call s self args of
            Inl e \<Rightarrow> Inl e
          | Inr v \<Rightarrow> store_call s other ([v], []))"
  apply (subst store_call.simps)
  apply (simp add: nth_append)
  apply (subst store_call.simps)
  using assms
  apply (simp add: nth_append store_call_append split: sum.splits)
  done

lemma store_call_new_lshift:
  assumes "self < length s" "other < length s"
  shows "store_call (s @ [Closure_lshift self other, Partial_cell LeftFlowing (length s)])
           (Suc (length s)) args =
         (case store_call s other args of
            Inl e \<Rightarrow> Inl e
          | Inr v \<Rightarrow> store_call s self ([v], []))"
  apply (subst store_call.simps)
  apply (simp add: nth_append)
  apply (subst store_call.simps)
  using assms
  apply (simp add: nth_append store_call_append split: sum.splits)
  done

text \<open>
  Claim C6. For a composed function \<open>g\<close> and an object \<open>f\<close> of a store \<open>s\<close>,
  \<^verbatim>\<open>g >> f\<close> (and \<^verbatim>\<open>g << f\<close>) returns a reference \<open>g'\<close> to a new object: \<open>g'\<close> is none
  of the references of \<open>s\<close>, every object of \<open>s\<close> is in the new store as it was, calling
  \<open>g\<close> afterwards returns or raises what it did before, and calling \<open>g'\<close> is calling
  \<open>g\<close> and then \<open>f\<close> (\<open>f\<close> and then \<open>g\<close>).
\<close>

theorem composed_function_immutable:
  assumes "g < length s" and "f < length s"
  shows
  "(\<exists>g' s'. store_RightFlowing_rshift g f s = (Inr g', s')
       \<and> length s \<le> g' \<and> g' < length s'
       \<and> take (length s) s' = s
       \<and> (\<forall>args. store_call s' g args = store_call s g args)
       \<and> (\<forall>args. store_call s' g' args =
             (case store_call s g args of
                Inl e \<Rightarrow> Inl e
              | Inr v \<Rightarrow> store_call s f ([v], []))))
   \<and> (\<exists>g' s'. store_LeftFlowing_lshift g f s = (Inr g', s')
       \<and> length s \<le> g' \<and> g' < length s'
       \<and> take (length s) s' = s
       \<and> (\<forall>args. store_call s' g args = store_call s g args)
       \<and> (\<forall>args. store_call s' g' args =
             (case store_call s f args of
                Inl e \<Rightarrow> Inl e
              | Inr v \<Rightarrow> store_call s g ([v], []))))"
proof (rule conjI)
  show "\<exists>g' s'. store_RightFlowing_rshift g f s = (Inr g', s')
       \<and> length s \<le> g' \<and> g' < length s'
       \<and> take (length s) s' = s
       \<and> (\<forall>args. store_call s' g args = store_call s g args)
       \<and> (\<forall>args. store_call s' g' args =
             (case store_call s g args of
                Inl e \<Rightarrow> Inl e
              | Inr v \<Rightarrow> store_call s f ([v], [])))"
    using assms
    by (simp add: store_RightFlowing_rshift_eq store_call_append store_call_new_rshift)
next
  show "\<exists>g' s'. store_LeftFlowing_lshift g f s = (Inr g', s')
       \<and> length s \<le> g' \<and> g' < length s'
       \<and> take (length s) s' = s
       \<and> (\<forall>args. store_call s' g args = store_call s g args)
       \<and> (\<forall>args. store_call s' g' args =
             (case store_call s f args of
                Inl e \<Rightarrow> Inl e
              | Inr v \<Rightarrow> store_call s g ([v], [])))"
    using assms
    by (simp add: store_LeftFlowing_lshift_eq store_call_append store_call_new_lshift)
qed

text \<open>
  In the example store, \<^verbatim>\<open>r >> increment\<close> and \<^verbatim>\<open>l << increment\<close> return new objects,
  which map 3 to 7 and to 8, and \<^verbatim>\<open>r\<close> and \<^verbatim>\<open>l\<close> map 3 to 6 afterwards, as before.
\<close>

theorem composed_function_immutable_witness:
  "1 < length example_store \<and> 2 < length example_store \<and> 3 < length example_store
   \<and> store_call example_store 1 ([3], []) = Inr 6
   \<and> store_call example_store 3 ([3], []) = Inr 6
   \<and> (\<exists>g' s'. store_RightFlowing_rshift 1 2 example_store = (Inr g', s')
         \<and> store_call s' 1 ([3], []) = Inr 6 \<and> store_call s' g' ([3], []) = Inr 7)
   \<and> (\<exists>g' s'. store_LeftFlowing_lshift 3 2 example_store = (Inr g', s')
         \<and> store_call s' 3 ([3], []) = Inr 6 \<and> store_call s' g' ([3], []) = Inr 8)"
proof -
  have len: "1 < length example_store" "2 < length example_store" "3 < length example_store"
    by (simp_all add: example_store_def)
  have r: "store_call example_store 1 ([3], []) = Inr 6"
    by (simp add: example_store_def store_call.simps double_def unary_def)
  have l: "store_call example_store 3 ([3], []) = Inr 6"
    by (simp add: example_store_def store_call.simps double_def unary_def)
  have i: "store_call example_store 2 ([6], []) = Inr 7"
    by (simp add: example_store_def store_call.simps increment_def unary_def)
  have i': "store_call example_store 2 ([3], []) = Inr 4"
    by (simp add: example_store_def store_call.simps increment_def unary_def)
  have l': "store_call example_store 3 ([4], []) = Inr 8"
    by (simp add: example_store_def store_call.simps double_def unary_def)
  have right: "\<exists>g' s'. store_RightFlowing_rshift 1 2 example_store = (Inr g', s')
         \<and> store_call s' 1 ([3], []) = Inr 6 \<and> store_call s' g' ([3], []) = Inr 7"
    using composed_function_immutable [OF len(1) len(2)] r i
    by (auto simp del: One_nat_def)
  have left: "\<exists>g' s'. store_LeftFlowing_lshift 3 2 example_store = (Inr g', s')
         \<and> store_call s' 3 ([3], []) = Inr 6 \<and> store_call s' g' ([3], []) = Inr 8"
    using composed_function_immutable [OF len(3) len(2)] l i' l'
    by auto
  from len r l right left show ?thesis
    by blast
qed

section \<open>Chains and the recursion limit\<close>


lemma store_call_within_value:
  "store_call_within d s r args = Inr v \<Longrightarrow> store_call s r args = Inr v"
proof (induction d arbitrary: r args v)
  case 0
  then show ?case by (simp split: if_splits cell.splits)
next
  case (Suc d)
  show ?case
    apply (subst store_call.simps)
    using Suc.prems
    apply (auto split: if_splits cell.splits sum.splits dest!: Suc.IH)
    done
qed

































subsection \<open>Order of evaluation\<close>








subsection \<open>Errors\<close>




section \<open>The store and the objects it stands for\<close>

text \<open>
  The two models agree: calling a reference is calling the object it stands for, and
  the operators of the store return a reference that stands for what the operators of
  the first sections return.
\<close>

lemma call_reify: "call (reify s r) args = store_call s r args"
proof (induction r arbitrary: args rule: less_induct)
  case (less r)
  show ?case
    apply (subst reify.simps [of s r])
    apply (subst store_call.simps [of s r args])
    apply (simp add: less.IH split: cell.splits sum.splits)
    done
qed

lemma callable_reify: "r < length s \<Longrightarrow> callable (reify s r) = store_callable s r"
  by (subst reify.simps) (simp add: store_callable_def split: cell.splits)

lemma reify_append: "r < length s \<Longrightarrow> reify (s @ t) r = reify s r"
proof (induction r rule: less_induct)
  case (less r)
  have IH: "reify (s @ t) y = reify s y" if "y < r" for y
    using less.IH [OF that] that less.prems by simp
  show ?case
    apply (subst reify.simps [of "s @ t" r])
    apply (subst reify.simps [of s r])
    using less.prems
    apply (simp add: nth_append IH split: cell.splits cong: sum.case_cong)
    done
qed

lemma reify_RightFlowing_rshift:
  assumes "self < length s" "other < length s"
    and "store_RightFlowing_rshift self other s = (Inr g', s')"
  shows "RightFlowing_rshift (reify s self) (reify s other) = Inr (reify s' g')"
proof -
  have g': "g' = Suc (length s)"
    and s': "s' = s @ [Closure_rshift self other, Partial_cell RightFlowing (length s)]"
    using assms(3) by (simp_all add: store_RightFlowing_rshift_eq)
  have c: "reify s' (length s) =
             Function (\<lambda>args. case call (reify s self) args of
                                   Inl e \<Rightarrow> Inl e
                                 | Inr v \<Rightarrow> call (reify s other) ([v], []))"
    unfolding s'
    apply (subst reify.simps)
    using assms(1,2)
    apply (simp add: nth_append reify_append cong: sum.case_cong)
    done
  have p: "reify s' (Suc (length s)) = Partial RightFlowing (reify s' (length s))"
    unfolding s' by (subst reify.simps) (simp add: nth_append)
  show ?thesis
    unfolding g' p c by (simp add: RightFlowing_rshift_def partial_new_def)
qed

lemma reify_LeftFlowing_lshift:
  assumes "self < length s" "other < length s"
    and "store_LeftFlowing_lshift self other s = (Inr g', s')"
  shows "LeftFlowing_lshift (reify s self) (reify s other) = Inr (reify s' g')"
proof -
  have g': "g' = Suc (length s)"
    and s': "s' = s @ [Closure_lshift self other, Partial_cell LeftFlowing (length s)]"
    using assms(3) by (simp_all add: store_LeftFlowing_lshift_eq)
  have c: "reify s' (length s) =
             Function (\<lambda>args. case call (reify s other) args of
                                   Inl e \<Rightarrow> Inl e
                                 | Inr v \<Rightarrow> call (reify s self) ([v], []))"
    unfolding s'
    apply (subst reify.simps)
    using assms(1,2)
    apply (simp add: nth_append reify_append cong: sum.case_cong)
    done
  have p: "reify s' (Suc (length s)) = Partial LeftFlowing (reify s' (length s))"
    unfolding s' by (subst reify.simps) (simp add: nth_append)
  show ?thesis
    unfolding g' p c by (simp add: LeftFlowing_lshift_def partial_new_def)
qed

lemma reify_partial_new:
  assumes "b < length s"
  shows "partial_new c (reify s b) =
           (case store_partial_new c b s of
              (Inl e, s') \<Rightarrow> Inl e
            | (Inr g, s') \<Rightarrow> Inr (reify s' g))"
proof (cases "store_callable s b")
  case True
  have "reify (s @ [Partial_cell c b]) (length s) = Partial c (reify s b)"
    using assms by (subst reify.simps) (simp add: nth_append reify_append)
  with True assms show ?thesis
    by (simp add: partial_new_def store_partial_new_def callable_reify)
next
  case False
  with assms show ?thesis
    by (simp add: partial_new_def store_partial_new_def callable_reify)
qed

lemma special_method_reify:
  assumes "a < length s"
  shows "special_method (reify s a) op =
           (case s ! a of
              Partial_cell LeftFlowing func \<Rightarrow>
                (case op of LShift \<Rightarrow> Some LeftFlowing_lshift | _ \<Rightarrow> None)
            | Partial_cell RightFlowing func \<Rightarrow>
                (case op of LShift \<Rightarrow> None | _ \<Rightarrow> Some RightFlowing_rshift)
            | Compositor_cell \<Rightarrow>
                (case op of LShift \<Rightarrow> Some Compositor_lshift | _ \<Rightarrow> Some Compositor_rshift)
            | _ \<Rightarrow> None)"
  using assms
  by (subst reify.simps) (simp split: cell.splits flow.splits binop.splits)

lemma reify_rshift_case:
  assumes "a < length s" "b < length s"
  shows "RightFlowing_rshift (reify s a) (reify s b) =
           (case store_RightFlowing_rshift a b s of
              (Inl e, s') \<Rightarrow> Inl e
            | (Inr g, s') \<Rightarrow> Inr (reify s' g))"
  using reify_RightFlowing_rshift [OF assms store_RightFlowing_rshift_eq]
  by (simp add: store_RightFlowing_rshift_eq)

lemma reify_lshift_case:
  assumes "a < length s" "b < length s"
  shows "LeftFlowing_lshift (reify s a) (reify s b) =
           (case store_LeftFlowing_lshift a b s of
              (Inl e, s') \<Rightarrow> Inl e
            | (Inr g, s') \<Rightarrow> Inr (reify s' g))"
  using reify_LeftFlowing_lshift [OF assms store_LeftFlowing_lshift_eq]
  by (simp add: store_LeftFlowing_lshift_eq)

lemma reify_binary_op:
  assumes "a < length s" "b < length s"
  shows "binary_op op (reify s a) (reify s b) =
           (case store_binary_op op a b s of
              (Inl e, s') \<Rightarrow> Inl e
            | (Inr g, s') \<Rightarrow> Inr (reify s' g))"
proof (cases "s ! a")
  case (Partial_cell c func)
  with assms show ?thesis
    by (cases c; cases op)
       (simp_all add: binary_op_def store_binary_op_def special_method_reify
          reify_rshift_case reify_lshift_case)
next
  case Compositor_cell
  with assms show ?thesis
    by (cases op)
       (simp_all add: binary_op_def store_binary_op_def special_method_reify
          Compositor_lshift_def Compositor_rshift_def store_Compositor_lshift_def
          store_Compositor_rshift_def reify_partial_new)
next
  case (Data_cell v)
  with assms show ?thesis
    by (simp add: binary_op_def store_binary_op_def special_method_reify)
next
  case (Function_cell f)
  with assms show ?thesis
    by (simp add: binary_op_def store_binary_op_def special_method_reify)
next
  case (Closure_lshift x y)
  with assms show ?thesis
    by (simp add: binary_op_def store_binary_op_def special_method_reify)
next
  case (Closure_rshift x y)
  with assms show ?thesis
    by (simp add: binary_op_def store_binary_op_def special_method_reify)
qed

end
